theory Spec2Isabelle
  imports Main
begin

section \<open>Data model\<close>

text \<open>
  The class \<open>SendspinMpris\<close> of \<open>mpris.py\<close> mirrors the events of a streaming client
  into a state record that a desktop media-control server reads, and tells that server,
  through an event adapter, which property has changed. The embedding below follows the
  file method by method. Every method takes the object and returns the object as the
  method leaves it; \<open>start\<close>, the one method that can raise to its caller, returns
  the exception beside the object when it does.

  Three things the Python does outside the object are kept in a field \<open>trace\<close> of the
  object, in program order: the entry into each public setter with its arguments, the
  calls made on collaborators (event adapter, logger, client, listener removers, server,
  thread), and, with each call on the event adapter, the state record as it stands at
  that moment. The trace is the only addition to the fields of the class.

  An exception, here, is an instance of Python's \<open>Exception\<close>, the class that every
  \<open>except\<close> clause of the file names. A collaborator's call either returns or raises
  such an exception; inside a \<open>try\<close> the exception ends in the handler, outside it
  reaches the caller.
\<close>

datatype outcome = Returns | Raises

text \<open>
  A field of an incoming payload is one of three things: left out of this update (the
  \<open>UndefinedField\<close> sentinel of the client library), or given, and then either \<open>None\<close> or a
  value. A given field is \<open>Defined v\<close> with \<open>v\<close> an option.
\<close>

datatype 'a field = UndefinedField | Defined 'a

text \<open>
  Modelled from the spec: the enumeration \<open>PlaybackStateType\<close> belongs to the client
  library; the spec lists playing, paused and stopped.
\<close>

datatype PlaybackStateType = PLAYING | PAUSED | STOPPED

text \<open>
  Modelled from the spec: the class \<open>MprisState\<close> is declared in \<open>adapter.py\<close>; the spec
  gives its fields and their types. The commands are an enumeration of the client
  library, a type parameter here.
\<close>

record 'c MprisState =
  title :: "string option"
  artist :: "string option"
  album :: "string option"
  duration_ms :: "int option"
  progress_ms :: "int option"
  playback_state :: "PlaybackStateType option"
  volume :: int
  muted :: bool
  supported_commands :: "'c set"

text \<open>
  The payloads of the client library, with the fields the handlers read. A progress
  object carries the position and the length of the track, both integers: the library
  builds no progress object without them.
\<close>

record Progress =
  track_progress :: int
  track_duration :: int

record SessionUpdateMetadata =
  metadata_title :: "string option field"
  metadata_artist :: "string option field"
  metadata_album :: "string option field"
  metadata_progress :: "Progress option field"

record 'c ControllerStatePayload =
  controller_supported_commands :: "'c list"
  controller_volume :: int
  controller_muted :: bool

record 'c ServerStatePayload =
  metadata :: "SessionUpdateMetadata option"
  controller :: "'c ControllerStatePayload option"

record GroupUpdateServerPayload =
  group_playback_state :: "PlaybackStateType option"

subsection \<open>Collaborators\<close>

datatype notification = on_title | on_playpause | on_volume | on_options

datatype level = DEBUG | INFO | WARNING

datatype listener = metadata_listener | group_update_listener | controller_state_listener

text \<open>
  A listener remover is the callable that \<open>add_..._listener\<close> hands back: it names the
  listener it removes, and calling it returns or raises.
\<close>

record remover =
  removes :: listener
  remover_outcome :: outcome

text \<open>A call of \<open>add_..._listener\<close> hands back a remover, or raises.\<close>

datatype registration = Registered remover | Registration_raises

type_synonym event_loop = nat

record SendspinMprisAdapter =
  adapter_loop :: event_loop
  adapter_desktop_entry :: "string option"

record Server =
  server_name :: string
  server_adapter :: SendspinMprisAdapter
  quit_outcome :: outcome

record Thread =
  thread_name :: string
  daemon :: bool

datatype 'c call =
    Set_metadata "string option" "string option" "string option" "int option"
  | Set_progress "int option"
  | Set_playback_state PlaybackStateType
  | Set_volume int bool
  | Set_supported_commands "'c set"

datatype 'c effect =
    Enter "'c call"
  | Emit notification "'c MprisState"
  | Log level string
  | Add_listener listener
  | Call_remover remover
  | Server_quit
  | Thread_start
  | Thread_join nat

text \<open>
  What \<open>start\<close> finds around it: the module constant \<open>MPRIS_AVAILABLE\<close> of
  \<open>adapter.py\<close>, the result of \<open>asyncio.get_running_loop()\<close> (\<open>None\<close> when it raises
  \<open>RuntimeError\<close>), whether each of the calls \<open>SendspinMprisAdapter(...)\<close>,
  \<open>Server(...)\<close>, \<open>EventAdapter(...)\<close> and \<open>Thread.start()\<close> returns or raises, and the
  behaviour of the server and the event adapter that the protocol library builds.
\<close>

record environment =
  MPRIS_AVAILABLE :: bool
  get_running_loop :: "event_loop option"
  adapter_constructor :: outcome
  server_constructor :: outcome
  event_adapter_constructor :: outcome
  thread_start :: outcome
  new_server_quit :: outcome
  new_event_adapter :: "notification \<Rightarrow> outcome"

record 'c SendspinMpris =
  client :: "listener \<Rightarrow> registration"
  name :: string
  desktop_entry :: "string option"
  loop :: "event_loop option"
  state :: "'c MprisState"
  adapter :: "SendspinMprisAdapter option"
  server :: "Server option"
  event_adapter :: "(notification \<Rightarrow> outcome) option"
  thread :: "Thread option"
  running :: bool
  listener_removers :: "remover list"
  trace :: "'c effect list"

text \<open>
  What reaches the caller of \<open>start\<close>: the \<open>RuntimeError\<close> that \<open>start\<close> raises itself,
  or the exception of a call that \<open>start\<close> makes outside every \<open>try\<close>.
\<close>

datatype collaborator_call =
    SendspinMprisAdapter_call
  | Server_call
  | EventAdapter_call
  | Thread_start_call
  | add_listener_call listener

datatype error = RuntimeError string | Propagated collaborator_call

section \<open>The class\<close>

definition record_effect :: "'c effect \<Rightarrow> 'c SendspinMpris \<Rightarrow> 'c SendspinMpris" where
  "record_effect e s = s\<lparr>trace := trace s @ [e]\<rparr>"

definition log :: "level \<Rightarrow> string \<Rightarrow> 'c SendspinMpris \<Rightarrow> 'c SendspinMpris" where
  "log l msg s = record_effect (Log l msg) s"

text \<open>
  \<open>__init__\<close>. The value of \<open>MprisState()\<close> is a parameter, its class being declared in
  \<open>adapter.py\<close>.
\<close>

definition init ::
  "'c MprisState \<Rightarrow> (listener \<Rightarrow> registration) \<Rightarrow> string \<Rightarrow> string option \<Rightarrow>
   'c SendspinMpris" where
  "init st0 cl nm de =
     \<lparr>client = cl, name = nm, desktop_entry = de, loop = None, state = st0,
      adapter = None, server = None, event_adapter = None, thread = None,
      running = False, listener_removers = [], trace = []\<rparr>"

subsection \<open>Setters\<close>

text \<open>
  The tail that four of the five setters share: with no event adapter, a warning and
  return; otherwise one call on the event adapter, and a debug line if it raises.
\<close>

definition emit_change ::
  "notification \<Rightarrow> string \<Rightarrow> string \<Rightarrow> 'c SendspinMpris \<Rightarrow> 'c SendspinMpris" where
  "emit_change n warning debug s =
     (case event_adapter s of
        None \<Rightarrow> log WARNING warning s
      | Some ea \<Rightarrow>
          (let s1 = record_effect (Emit n (state s)) s in
           case ea n of
             Returns \<Rightarrow> s1
           | Raises \<Rightarrow> log DEBUG debug s1))"

definition set_metadata ::
  "string option \<Rightarrow> string option \<Rightarrow> string option \<Rightarrow> int option \<Rightarrow>
   'c SendspinMpris \<Rightarrow> 'c SendspinMpris" where
  "set_metadata t ar al d s =
     (let s0 = record_effect (Enter (Set_metadata t ar al d)) s;
          s1 = s0\<lparr>state := (state s0)\<lparr>title := t\<rparr>\<rparr>;
          s2 = s1\<lparr>state := (state s1)\<lparr>artist := ar\<rparr>\<rparr>;
          s3 = s2\<lparr>state := (state s2)\<lparr>album := al\<rparr>\<rparr>;
          s4 = s3\<lparr>state := (state s3)\<lparr>duration_ms := d\<rparr>\<rparr>
      in emit_change on_title
           ''MPRIS event adapter not initialized; cannot emit metadata change''
           ''Failed to emit MPRIS metadata change'' s4)"

text \<open>
  A call that leaves a keyword argument out takes the default of the signature. All four
  parameters of \<open>set_metadata\<close> have the default \<open>None\<close>.
\<close>

datatype 'a argument = Omitted | Given 'a

fun or_default :: "'a \<Rightarrow> 'a argument \<Rightarrow> 'a" where
  "or_default d Omitted = d"
| "or_default d (Given v) = v"

definition set_metadata_kw ::
  "string option argument \<Rightarrow> string option argument \<Rightarrow> string option argument \<Rightarrow>
   int option argument \<Rightarrow> 'c SendspinMpris \<Rightarrow> 'c SendspinMpris" where
  "set_metadata_kw t ar al d s =
     set_metadata (or_default None t) (or_default None ar) (or_default None al)
       (or_default None d) s"

definition set_progress :: "int option \<Rightarrow> 'c SendspinMpris \<Rightarrow> 'c SendspinMpris" where
  "set_progress p s =
     (let s0 = record_effect (Enter (Set_progress p)) s
      in s0\<lparr>state := (state s0)\<lparr>progress_ms := p\<rparr>\<rparr>)"

definition set_playback_state ::
  "PlaybackStateType \<Rightarrow> 'c SendspinMpris \<Rightarrow> 'c SendspinMpris" where
  "set_playback_state ps s =
     (let s0 = record_effect (Enter (Set_playback_state ps)) s;
          s1 = s0\<lparr>state := (state s0)\<lparr>playback_state := Some ps\<rparr>\<rparr>
      in emit_change on_playpause
           ''MPRIS event adapter not initialized; cannot emit playback state change''
           ''Failed to emit MPRIS playback state change'' s1)"

definition set_volume :: "int \<Rightarrow> bool \<Rightarrow> 'c SendspinMpris \<Rightarrow> 'c SendspinMpris" where
  "set_volume v m s =
     (let s0 = record_effect (Enter (Set_volume v m)) s;
          s1 = s0\<lparr>state := (state s0)\<lparr>volume := v\<rparr>\<rparr>;
          s2 = s1\<lparr>state := (state s1)\<lparr>muted := m\<rparr>\<rparr>
      in emit_change on_volume
           ''MPRIS event adapter not initialized; cannot emit volume change''
           ''Failed to emit MPRIS volume change'' s2)"

definition set_supported_commands ::
  "'c set \<Rightarrow> 'c SendspinMpris \<Rightarrow> 'c SendspinMpris" where
  "set_supported_commands cs s =
     (let s0 = record_effect (Enter (Set_supported_commands cs)) s;
          s1 = s0\<lparr>state := (state s0)\<lparr>supported_commands := cs\<rparr>\<rparr>
      in emit_change on_options
           ''MPRIS event adapter not initialized; cannot emit options change''
           ''Failed to emit MPRIS options change'' s1)"

subsection \<open>Event handlers\<close>

text \<open>
  \<open>_on_metadata_update\<close>. Title, artist and album come from the payload unless the field
  is the sentinel; length and position start from the state and are replaced together
  when the payload has a progress object.
\<close>

definition on_metadata_update ::
  "'c ServerStatePayload \<Rightarrow> 'c SendspinMpris \<Rightarrow> 'c SendspinMpris" where
  "on_metadata_update payload s =
     (case metadata payload of
        None \<Rightarrow> s
      | Some m \<Rightarrow>
          (let t = (case metadata_title m of
                      Defined v \<Rightarrow> v | UndefinedField \<Rightarrow> title (state s));
               ar = (case metadata_artist m of
                       Defined v \<Rightarrow> v | UndefinedField \<Rightarrow> artist (state s));
               al = (case metadata_album m of
                       Defined v \<Rightarrow> v | UndefinedField \<Rightarrow> album (state s));
               d0 = duration_ms (state s);
               p0 = progress_ms (state s);
               (d, p) = (case metadata_progress m of
                           Defined (Some pr) \<Rightarrow>
                             (Some (track_duration pr), Some (track_progress pr))
                         | Defined None \<Rightarrow> (d0, p0)
                         | UndefinedField \<Rightarrow> (d0, p0));
               s1 = set_metadata t ar al d s
           in if p \<noteq> None then set_progress p s1 else s1))"

text \<open>\<open>_on_group_update\<close>.\<close>

definition on_group_update ::
  "GroupUpdateServerPayload \<Rightarrow> 'c SendspinMpris \<Rightarrow> 'c SendspinMpris" where
  "on_group_update payload s =
     (case group_playback_state payload of
        Some ps \<Rightarrow> set_playback_state ps s
      | None \<Rightarrow> s)"

text \<open>\<open>_on_controller_state\<close>. The keyword \<open>muted\<close> is always passed.\<close>

definition on_controller_state ::
  "'c ServerStatePayload \<Rightarrow> 'c SendspinMpris \<Rightarrow> 'c SendspinMpris" where
  "on_controller_state payload s =
     (case controller payload of
        None \<Rightarrow> s
      | Some c \<Rightarrow>
          (let s1 = set_supported_commands (set (controller_supported_commands c)) s
           in set_volume (controller_volume c) (controller_muted c) s1))"

subsection \<open>Life cycle\<close>

text \<open>
  A method that can raise returns \<open>Inr\<close> of the object when it returns normally, and
  \<open>Inl\<close> of the exception and of the object as the raise leaves it.
\<close>

type_synonym 'c completion = "(error \<times> 'c SendspinMpris) + 'c SendspinMpris"

text \<open>
  \<open>_attach_client_listeners\<close>: three registrations, each remover appended. No \<open>try\<close>
  stands around the calls on the client.
\<close>

definition add_listener :: "listener \<Rightarrow> 'c SendspinMpris \<Rightarrow> 'c completion" where
  "add_listener k s =
     (let s1 = record_effect (Add_listener k) s
      in case client s1 k of
           Registration_raises \<Rightarrow> Inl (Propagated (add_listener_call k), s1)
         | Registered r \<Rightarrow> Inr (s1\<lparr>listener_removers := listener_removers s1 @ [r]\<rparr>))"

definition attach_client_listeners :: "'c SendspinMpris \<Rightarrow> 'c completion" where
  "attach_client_listeners s =
     (case add_listener metadata_listener s of
        Inl x \<Rightarrow> Inl x
      | Inr s1 \<Rightarrow>
          (case add_listener group_update_listener s1 of
             Inl x \<Rightarrow> Inl x
           | Inr s2 \<Rightarrow>
               (case add_listener controller_state_listener s2 of
                  Inl x \<Rightarrow> Inl x
                | Inr s3 \<Rightarrow>
                    Inr (log DEBUG ''Attached MPRIS listeners to SendspinClient'' s3))))"

text \<open>
  \<open>start\<close>. The two early returns, the one \<open>raise\<close> of the file, then the construction
  of adapter, server, event adapter and thread, the start of the thread and the
  registrations, each of which can raise to the caller, after the assignments made so
  far. The body of the thread, which runs the server's loop beside the caller, is not
  part of the embedding.
\<close>

definition start :: "environment \<Rightarrow> 'c SendspinMpris \<Rightarrow> 'c completion" where
  "start env s =
     (if \<not> MPRIS_AVAILABLE env then
        Inr (log DEBUG
          ''MPRIS not available: mpris_server package not installed or not on Linux'' s)
      else if running s then
        Inr (log DEBUG ''MPRIS interface already running'' s)
      else
        (case get_running_loop env of
           None \<Rightarrow>
             Inl (RuntimeError ''MPRIS must be started from within a running event loop'', s)
         | Some l \<Rightarrow>
             (let s1 = s\<lparr>loop := Some l\<rparr>;
                  a = \<lparr>adapter_loop = l, adapter_desktop_entry = desktop_entry s1\<rparr>
              in case adapter_constructor env of
                Raises \<Rightarrow> Inl (Propagated SendspinMprisAdapter_call, s1)
              | Returns \<Rightarrow>
             (let s2 = s1\<lparr>adapter := Some a\<rparr>
              in case server_constructor env of
                Raises \<Rightarrow> Inl (Propagated Server_call, s2)
              | Returns \<Rightarrow>
             (let s3 = s2\<lparr>server := Some \<lparr>server_name = name s2, server_adapter = a,
                                          quit_outcome = new_server_quit env\<rparr>\<rparr>
              in case event_adapter_constructor env of
                Raises \<Rightarrow> Inl (Propagated EventAdapter_call, s3)
              | Returns \<Rightarrow>
             (let s4 = s3\<lparr>event_adapter := Some (new_event_adapter env)\<rparr>;
                  s5 = s4\<lparr>thread := Some \<lparr>thread_name = ''mpris-server'', daemon = True\<rparr>\<rparr>;
                  s6 = record_effect Thread_start s5
              in case thread_start env of
                Raises \<Rightarrow> Inl (Propagated Thread_start_call, s6)
              | Returns \<Rightarrow>
             (let s7 = s6\<lparr>running := True\<rparr>
              in case attach_client_listeners s7 of
                Inl x \<Rightarrow> Inl x
              | Inr s8 \<Rightarrow> Inr (log INFO ''MPRIS interface started'' s8))))))))"

text \<open>
  The loop of \<open>stop\<close> over the removers: each one is called, and a raise is logged and
  the loop goes on.
\<close>

fun call_removers :: "remover list \<Rightarrow> 'c SendspinMpris \<Rightarrow> 'c SendspinMpris" where
  "call_removers [] s = s"
| "call_removers (r # rs) s =
     (let s1 = record_effect (Call_remover r) s
      in call_removers rs
           (case remover_outcome r of
              Returns \<Rightarrow> s1
            | Raises \<Rightarrow> log DEBUG ''Error removing listener'' s1))"

definition stop :: "'c SendspinMpris \<Rightarrow> 'c SendspinMpris" where
  "stop s =
     (if \<not> running s then s
      else
        (let s1 = s\<lparr>running := False\<rparr>;
             s2 = s1\<lparr>event_adapter := None\<rparr>;
             s3 = call_removers (listener_removers s2) s2;
             s4 = s3\<lparr>listener_removers := []\<rparr>;
             s5 = (case server s4 of
                     None \<Rightarrow> s4
                   | Some srv \<Rightarrow>
                       (let q = record_effect Server_quit s4;
                            q' = (case quit_outcome srv of
                                    Returns \<Rightarrow> q
                                  | Raises \<Rightarrow> log DEBUG ''Error stopping MPRIS server'' q)
                        in q'\<lparr>server := None\<rparr>));
             s6 = (case thread s5 of
                     None \<Rightarrow> s5
                   | Some th \<Rightarrow>
                       (let j = log DEBUG ''Waiting for MPRIS server thread to exit'' s5;
                            j' = record_effect (Thread_join 1) j
                        in j'\<lparr>thread := None\<rparr>))
         in log INFO ''MPRIS interface stopped'' s6))"

text \<open>What a method added to the trace, and the calls of one kind among it.\<close>

definition added :: "'c SendspinMpris \<Rightarrow> 'c SendspinMpris \<Rightarrow> 'c effect list" where
  "added s s' = drop (length (trace s)) (trace s')"

fun is_Emit :: "'c effect \<Rightarrow> bool" where
  "is_Emit (Emit n st) = True"
| "is_Emit e = False"

fun is_Enter :: "'c effect \<Rightarrow> bool" where
  "is_Enter (Enter c) = True"
| "is_Enter e = False"

fun is_Call_remover :: "'c effect \<Rightarrow> bool" where
  "is_Call_remover (Call_remover r) = True"
| "is_Call_remover e = False"

definition emitted :: "'c SendspinMpris \<Rightarrow> 'c SendspinMpris \<Rightarrow> 'c effect list" where
  "emitted s s' = filter is_Emit (added s s')"

definition entered :: "'c SendspinMpris \<Rightarrow> 'c SendspinMpris \<Rightarrow> 'c effect list" where
  "entered s s' = filter is_Enter (added s s')"

definition removed :: "'c SendspinMpris \<Rightarrow> 'c SendspinMpris \<Rightarrow> 'c effect list" where
  "removed s s' = filter is_Call_remover (added s s')"

fun is_Set_progress :: "'c effect \<Rightarrow> bool" where
  "is_Set_progress (Enter (Set_progress p)) = True"
| "is_Set_progress e = False"

fun is_Add_listener :: "'c effect \<Rightarrow> bool" where
  "is_Add_listener (Add_listener k) = True"
| "is_Add_listener e = False"

definition calls_set_progress :: "'c SendspinMpris \<Rightarrow> 'c SendspinMpris \<Rightarrow> bool" where
  "calls_set_progress s s' = list_ex is_Set_progress (added s s')"

text \<open>
  The test of line 205 of the file: the payload has a progress object, neither the
  sentinel nor \<open>None\<close>.
\<close>

definition carries_progress :: "SessionUpdateMetadata \<Rightarrow> bool" where
  "carries_progress m =
     (case metadata_progress m of
        Defined (Some pr) \<Rightarrow> True
      | Defined None \<Rightarrow> False
      | UndefinedField \<Rightarrow> False)"

text \<open>
  Whether a call that \<open>start\<close> makes outside every \<open>try\<close> returns or raises, on a given
  platform and client.
\<close>

fun call_outcome ::
  "environment \<Rightarrow> (listener \<Rightarrow> registration) \<Rightarrow> collaborator_call \<Rightarrow> outcome" where
  "call_outcome env cl SendspinMprisAdapter_call = adapter_constructor env"
| "call_outcome env cl Server_call = server_constructor env"
| "call_outcome env cl EventAdapter_call = event_adapter_constructor env"
| "call_outcome env cl Thread_start_call = thread_start env"
| "call_outcome env cl (add_listener_call k) =
     (case cl k of Registration_raises \<Rightarrow> Raises | Registered r \<Rightarrow> Returns)"

subsection \<open>Histories\<close>

text \<open>
  What can be done to an object from outside: the two life-cycle methods, the five
  setters, and the three events the client delivers. After a \<open>start\<close> that raises, the
  object is as the raise left it. \<open>run\<close> applies a history from left to right.
\<close>

datatype 'c operation =
    Start environment
  | Stop
  | Setter "'c call"
  | Metadata_event "'c ServerStatePayload"
  | Group_event GroupUpdateServerPayload
  | Controller_event "'c ServerStatePayload"

fun apply_call :: "'c call \<Rightarrow> 'c SendspinMpris \<Rightarrow> 'c SendspinMpris" where
  "apply_call (Set_metadata t ar al d) s = set_metadata t ar al d s"
| "apply_call (Set_progress p) s = set_progress p s"
| "apply_call (Set_playback_state ps) s = set_playback_state ps s"
| "apply_call (Set_volume v m) s = set_volume v m s"
| "apply_call (Set_supported_commands cs) s = set_supported_commands cs s"

fun step :: "'c operation \<Rightarrow> 'c SendspinMpris \<Rightarrow> 'c SendspinMpris" where
  "step (Start env) s = (case start env s of Inr s' \<Rightarrow> s' | Inl (e, s') \<Rightarrow> s')"
| "step Stop s = stop s"
| "step (Setter c) s = apply_call c s"
| "step (Metadata_event p) s = on_metadata_update p s"
| "step (Group_event p) s = on_group_update p s"
| "step (Controller_event p) s = on_controller_state p s"

fun run :: "'c operation list \<Rightarrow> 'c SendspinMpris \<Rightarrow> 'c SendspinMpris" where
  "run [] s = s"
| "run (x # xs) s = run xs (step x s)"

fun finds_library :: "'c operation \<Rightarrow> bool" where
  "finds_library (Start env) = MPRIS_AVAILABLE env"
| "finds_library x = False"

text \<open>An object that is not running holds no remover.\<close>

definition settled :: "'c SendspinMpris \<Rightarrow> bool" where
  "settled s = (running s \<or> listener_removers s = [])"

definition at_rest :: "'c SendspinMpris \<Rightarrow> bool" where
  "at_rest s =
     (listener_removers s = [] \<and> event_adapter s = None \<and> server s = None \<and>
      thread s = None)"

text \<open>An object that has never found the library.\<close>

definition untouched :: "'c SendspinMpris \<Rightarrow> bool" where
  "untouched s =
     (\<not> running s \<and> at_rest s \<and> adapter s = None \<and> loop s = None \<and>
      filter is_Add_listener (trace s) = [] \<and> Thread_start \<notin> set (trace s))"

subsection \<open>Sample values\<close>

text \<open>The state of a new object, with nothing known yet.\<close>

definition sample_state :: "nat MprisState" where
  "sample_state =
     \<lparr>title = None, artist = None, album = None, duration_ms = None, progress_ms = None,
      playback_state = None, volume = 100, muted = False, supported_commands = {}\<rparr>"

text \<open>A client whose remover for the group listener raises.\<close>

definition sample_client :: "listener \<Rightarrow> registration" where
  "sample_client k =
     Registered
       \<lparr>removes = k,
        remover_outcome = (if k = group_update_listener then Raises else Returns)\<rparr>"

text \<open>
  A platform with the library and a running loop, where every call of \<open>start\<close> returns,
  and whose event adapter always raises.
\<close>

definition sample_environment :: environment where
  "sample_environment =
     \<lparr>MPRIS_AVAILABLE = True, get_running_loop = Some 1, adapter_constructor = Returns,
      server_constructor = Returns, event_adapter_constructor = Returns,
      thread_start = Returns, new_server_quit = Raises,
      new_event_adapter = (\<lambda>n. Raises)\<rparr>"

definition fresh :: "nat SendspinMpris" where
  "fresh = init sample_state sample_client ''Sendspin'' None"

definition started :: "nat SendspinMpris" where
  "started = step (Start sample_environment) fresh"

text \<open>The started object once a title, an album, a length and a position have been set.\<close>

definition playing :: "nat SendspinMpris" where
  "playing =
     run [Setter (Set_metadata (Some ''Old title'') None (Some ''Old album'') (Some 180000)),
          Setter (Set_progress (Some 5000))] started"

text \<open>An update that gives the artist and nothing else.\<close>

definition artist_only :: SessionUpdateMetadata where
  "artist_only =
     \<lparr>metadata_title = UndefinedField, metadata_artist = Defined (Some ''B''),
      metadata_album = UndefinedField, metadata_progress = UndefinedField\<rparr>"

text \<open>An update that gives a progress object and nothing else.\<close>

definition progress_only :: SessionUpdateMetadata where
  "progress_only =
     \<lparr>metadata_title = UndefinedField, metadata_artist = UndefinedField,
      metadata_album = UndefinedField,
      metadata_progress = Defined (Some \<lparr>track_progress = 7000, track_duration = 200000\<rparr>)\<rparr>"

text \<open>An event with no metadata.\<close>

definition without_metadata :: "nat ServerStatePayload" where
  "without_metadata = \<lparr>metadata = None, controller = None\<rparr>"

definition with_metadata :: "SessionUpdateMetadata \<Rightarrow> nat ServerStatePayload" where
  "with_metadata m = \<lparr>metadata = Some m, controller = None\<rparr>"

section \<open>What each method leaves behind\<close>

text \<open>
  Each setter written out as one update of the object: the fields of the state it
  assigns, and what it appends to the trace.
\<close>

lemma emit_change_eq:
  "emit_change n w d s =
     s\<lparr>trace := trace s @
        (case event_adapter s of
           None \<Rightarrow> [Log WARNING w]
         | Some ea \<Rightarrow>
             Emit n (state s) # (case ea n of Returns \<Rightarrow> [] | Raises \<Rightarrow> [Log DEBUG d]))\<rparr>"
  by (simp add: emit_change_def log_def record_effect_def Let_def
        split: option.split outcome.split)

lemma set_metadata_eq:
  "set_metadata t ar al d s =
     s\<lparr>state := (state s)\<lparr>title := t, artist := ar, album := al, duration_ms := d\<rparr>,
       trace := trace s @ Enter (Set_metadata t ar al d) #
        (case event_adapter s of
           None \<Rightarrow>
             [Log WARNING ''MPRIS event adapter not initialized; cannot emit metadata change'']
         | Some ea \<Rightarrow>
             Emit on_title
               ((state s)\<lparr>title := t, artist := ar, album := al, duration_ms := d\<rparr>) #
             (case ea on_title of
                Returns \<Rightarrow> []
              | Raises \<Rightarrow> [Log DEBUG ''Failed to emit MPRIS metadata change'']))\<rparr>"
  by (simp add: set_metadata_def emit_change_eq record_effect_def Let_def split: option.split)

lemma set_progress_eq:
  "set_progress p s =
     s\<lparr>state := (state s)\<lparr>progress_ms := p\<rparr>, trace := trace s @ [Enter (Set_progress p)]\<rparr>"
  by (simp add: set_progress_def record_effect_def Let_def)

lemma set_playback_state_eq:
  "set_playback_state ps s =
     s\<lparr>state := (state s)\<lparr>playback_state := Some ps\<rparr>,
       trace := trace s @ Enter (Set_playback_state ps) #
        (case event_adapter s of
           None \<Rightarrow>
             [Log WARNING
                ''MPRIS event adapter not initialized; cannot emit playback state change'']
         | Some ea \<Rightarrow>
             Emit on_playpause ((state s)\<lparr>playback_state := Some ps\<rparr>) #
             (case ea on_playpause of
                Returns \<Rightarrow> []
              | Raises \<Rightarrow> [Log DEBUG ''Failed to emit MPRIS playback state change'']))\<rparr>"
  by (simp add: set_playback_state_def emit_change_eq record_effect_def Let_def
        split: option.split)

lemma set_volume_eq:
  "set_volume v m s =
     s\<lparr>state := (state s)\<lparr>volume := v, muted := m\<rparr>,
       trace := trace s @ Enter (Set_volume v m) #
        (case event_adapter s of
           None \<Rightarrow>
             [Log WARNING ''MPRIS event adapter not initialized; cannot emit volume change'']
         | Some ea \<Rightarrow>
             Emit on_volume ((state s)\<lparr>volume := v, muted := m\<rparr>) #
             (case ea on_volume of
                Returns \<Rightarrow> []
              | Raises \<Rightarrow> [Log DEBUG ''Failed to emit MPRIS volume change'']))\<rparr>"
  by (simp add: set_volume_def emit_change_eq record_effect_def Let_def split: option.split)

lemma set_supported_commands_eq:
  "set_supported_commands cs s =
     s\<lparr>state := (state s)\<lparr>supported_commands := cs\<rparr>,
       trace := trace s @ Enter (Set_supported_commands cs) #
        (case event_adapter s of
           None \<Rightarrow>
             [Log WARNING ''MPRIS event adapter not initialized; cannot emit options change'']
         | Some ea \<Rightarrow>
             Emit on_options ((state s)\<lparr>supported_commands := cs\<rparr>) #
             (case ea on_options of
                Returns \<Rightarrow> []
              | Raises \<Rightarrow> [Log DEBUG ''Failed to emit MPRIS options change'']))\<rparr>"
  by (simp add: set_supported_commands_def emit_change_eq record_effect_def Let_def
        split: option.split)

text \<open>The metadata handler, with the values it hands to the two setters.\<close>

lemma on_metadata_update_None: "metadata p = None \<Longrightarrow> on_metadata_update p s = s"
  by (simp add: on_metadata_update_def)

lemma on_metadata_update_Some:
  assumes "metadata p = Some m"
  shows "on_metadata_update p s =
     (let d = (case metadata_progress m of
                 Defined (Some pr) \<Rightarrow> Some (track_duration pr)
               | Defined None \<Rightarrow> duration_ms (state s)
               | UndefinedField \<Rightarrow> duration_ms (state s));
          g = (case metadata_progress m of
                 Defined (Some pr) \<Rightarrow> Some (track_progress pr)
               | Defined None \<Rightarrow> progress_ms (state s)
               | UndefinedField \<Rightarrow> progress_ms (state s));
          s1 = set_metadata
                 (case metadata_title m of
                    UndefinedField \<Rightarrow> title (state s) | Defined v \<Rightarrow> v)
                 (case metadata_artist m of
                    UndefinedField \<Rightarrow> artist (state s) | Defined v \<Rightarrow> v)
                 (case metadata_album m of
                    UndefinedField \<Rightarrow> album (state s) | Defined v \<Rightarrow> v)
                 d s
      in case g of None \<Rightarrow> s1 | Some x \<Rightarrow> set_progress (Some x) s1)"
proof (cases "metadata_progress m")
  case UndefinedField
  with assms show ?thesis
    by (cases "progress_ms (state s)") (simp_all add: on_metadata_update_def Let_def)
next
  case (Defined q)
  show ?thesis
  proof (cases q)
    case None
    with assms Defined show ?thesis
      by (cases "progress_ms (state s)") (simp_all add: on_metadata_update_def Let_def)
  next
    case (Some pr)
    with assms Defined show ?thesis
      by (simp add: on_metadata_update_def Let_def)
  qed
qed

lemma state_on_metadata_update:
  assumes "metadata p = Some m"
  shows "state (on_metadata_update p s) =
     (state s)
       \<lparr>title := (case metadata_title m of
                    UndefinedField \<Rightarrow> title (state s) | Defined v \<Rightarrow> v),
        artist := (case metadata_artist m of
                    UndefinedField \<Rightarrow> artist (state s) | Defined v \<Rightarrow> v),
        album := (case metadata_album m of
                    UndefinedField \<Rightarrow> album (state s) | Defined v \<Rightarrow> v),
        duration_ms := (case metadata_progress m of
                 Defined (Some pr) \<Rightarrow> Some (track_duration pr)
               | Defined None \<Rightarrow> duration_ms (state s)
               | UndefinedField \<Rightarrow> duration_ms (state s)),
        progress_ms := (case metadata_progress m of
                 Defined (Some pr) \<Rightarrow> Some (track_progress pr)
               | Defined None \<Rightarrow> progress_ms (state s)
               | UndefinedField \<Rightarrow> progress_ms (state s))\<rparr>"
proof (cases "metadata_progress m")
  case UndefinedField
  then show ?thesis
    by (cases "progress_ms (state s)")
       (simp_all add: on_metadata_update_Some [OF assms] Let_def set_metadata_eq set_progress_eq)
next
  case (Defined q)
  show ?thesis
  proof (cases q)
    case None
    with Defined show ?thesis
      by (cases "progress_ms (state s)")
         (simp_all add: on_metadata_update_Some [OF assms] Let_def set_metadata_eq
            set_progress_eq)
  next
    case (Some pr)
    with Defined show ?thesis
      by (simp add: on_metadata_update_Some [OF assms] Let_def set_metadata_eq
            set_progress_eq)
  qed
qed

text \<open>The loop over the removers and the whole of \<open>stop\<close> on a running object.\<close>

lemma call_removers_eq:
  "call_removers rs s =
     s\<lparr>trace := trace s @
        concat (map (\<lambda>r. Call_remover r #
                       (case remover_outcome r of
                          Returns \<Rightarrow> []
                        | Raises \<Rightarrow> [Log DEBUG ''Error removing listener''])) rs)\<rparr>"
proof (induction rs arbitrary: s)
  case Nil
  show ?case by simp
next
  case (Cons r rs)
  show ?case
    by (cases "remover_outcome r") (simp_all add: Cons.IH Let_def record_effect_def log_def)
qed

lemma filter_removals:
  "filter is_Call_remover
     (concat (map (\<lambda>r. Call_remover r #
                       (case remover_outcome r of
                          Returns \<Rightarrow> []
                        | Raises \<Rightarrow> [Log DEBUG ''Error removing listener''])) rs)) =
   map Call_remover rs"
  by (induction rs) (simp_all split: outcome.split)

lemma filter_removal_errors:
  "length (filter (\<lambda>e. e = Log DEBUG ''Error removing listener'')
     (concat (map (\<lambda>r. Call_remover r #
                       (case remover_outcome r of
                          Returns \<Rightarrow> []
                        | Raises \<Rightarrow> [Log DEBUG ''Error removing listener''])) rs))) =
   length (filter (\<lambda>r. remover_outcome r = Raises) rs)"
  by (induction rs) (simp_all split: outcome.split)

lemma stop_running:
  assumes "running s"
  shows "stop s =
     s\<lparr>running := False, event_adapter := None, listener_removers := [],
       server := None, thread := None,
       trace := trace s @
         concat (map (\<lambda>r. Call_remover r #
                       (case remover_outcome r of
                          Returns \<Rightarrow> []
                        | Raises \<Rightarrow> [Log DEBUG ''Error removing listener'']))
                  (listener_removers s)) @
         (case server s of
            None \<Rightarrow> []
          | Some srv \<Rightarrow>
              Server_quit #
              (case quit_outcome srv of
                 Returns \<Rightarrow> []
               | Raises \<Rightarrow> [Log DEBUG ''Error stopping MPRIS server''])) @
         (case thread s of
            None \<Rightarrow> []
          | Some th \<Rightarrow>
              [Log DEBUG ''Waiting for MPRIS server thread to exit'', Thread_join 1]) @
         [Log INFO ''MPRIS interface stopped'']\<rparr>"
  using assms
  by (simp add: stop_def call_removers_eq Let_def record_effect_def log_def
        split: option.split outcome.split)

lemma stop_idle: "\<not> running s \<Longrightarrow> stop s = s"
  by (simp add: stop_def)

text \<open>The sample object after a successful \<open>start\<close>.\<close>

lemma started_eq:
  "started =
     \<lparr>client = sample_client, name = ''Sendspin'', desktop_entry = None, loop = Some 1,
      state = sample_state,
      adapter = Some \<lparr>adapter_loop = 1, adapter_desktop_entry = None\<rparr>,
      server = Some \<lparr>server_name = ''Sendspin'',
                      server_adapter = \<lparr>adapter_loop = 1, adapter_desktop_entry = None\<rparr>,
                      quit_outcome = Raises\<rparr>,
      event_adapter = Some (\<lambda>n. Raises),
      thread = Some \<lparr>thread_name = ''mpris-server'', daemon = True\<rparr>,
      running = True,
      listener_removers =
        [\<lparr>removes = metadata_listener, remover_outcome = Returns\<rparr>,
         \<lparr>removes = group_update_listener, remover_outcome = Raises\<rparr>,
         \<lparr>removes = controller_state_listener, remover_outcome = Returns\<rparr>],
      trace =
        [Thread_start, Add_listener metadata_listener, Add_listener group_update_listener,
         Add_listener controller_state_listener,
         Log DEBUG ''Attached MPRIS listeners to SendspinClient'',
         Log INFO ''MPRIS interface started'']\<rparr>"
  by (simp add: started_def fresh_def init_def start_def sample_environment_def
        attach_client_listeners_def add_listener_def sample_client_def log_def
        record_effect_def Let_def)

lemma state_playing:
  "state playing =
     sample_state\<lparr>title := Some ''Old title'', album := Some ''Old album'',
       duration_ms := Some 180000, progress_ms := Some 5000\<rparr>"
  by (simp add: playing_def set_metadata_eq set_progress_eq started_eq sample_state_def)

section \<open>What every history preserves\<close>

text \<open>
  The setters touch the state and the trace only, and the handlers are compositions of
  setters. So an object that is not running holds no remover, through any history, and
  an object that has never found the library has nothing built and nothing registered.
\<close>

lemma settled_setters:
  "settled s \<Longrightarrow> settled (set_metadata t ar al d s)"
  "settled s \<Longrightarrow> settled (set_progress g s)"
  "settled s \<Longrightarrow> settled (set_playback_state ps s)"
  "settled s \<Longrightarrow> settled (set_volume v m s)"
  "settled s \<Longrightarrow> settled (set_supported_commands cs s)"
  by (simp_all add: settled_def set_metadata_eq set_progress_eq
        set_playback_state_eq set_volume_eq set_supported_commands_eq)

lemma untouched_setters:
  "untouched s \<Longrightarrow> untouched (set_metadata t ar al d s)"
  "untouched s \<Longrightarrow> untouched (set_progress g s)"
  "untouched s \<Longrightarrow> untouched (set_playback_state ps s)"
  "untouched s \<Longrightarrow> untouched (set_volume v m s)"
  "untouched s \<Longrightarrow> untouched (set_supported_commands cs s)"
  by (simp_all add: untouched_def at_rest_def set_metadata_eq set_progress_eq
        set_playback_state_eq set_volume_eq set_supported_commands_eq)

lemma settled_call: "settled s \<Longrightarrow> settled (apply_call c s)"
  by (cases c) (simp_all add: settled_setters)

lemma untouched_call: "untouched s \<Longrightarrow> untouched (apply_call c s)"
  by (cases c) (simp_all add: untouched_setters)

lemma on_metadata_update_calls:
  "on_metadata_update p s = s \<or>
   (\<exists>t ar al d. on_metadata_update p s = set_metadata t ar al d s) \<or>
   (\<exists>t ar al d x. on_metadata_update p s =
      set_progress (Some x) (set_metadata t ar al d s))"
proof (cases "metadata p")
  case None
  then show ?thesis by (simp add: on_metadata_update_None)
next
  case (Some m)
  show ?thesis
    unfolding on_metadata_update_Some [OF Some] Let_def
    by (simp split: option.split) blast
qed

lemma on_group_update_calls:
  "on_group_update p s = s \<or> (\<exists>ps. on_group_update p s = set_playback_state ps s)"
  by (simp add: on_group_update_def split: option.split) blast

lemma on_controller_state_calls:
  "on_controller_state p s = s \<or>
   (\<exists>cs v m. on_controller_state p s =
      set_volume v m (set_supported_commands cs s))"
  by (simp add: on_controller_state_def Let_def split: option.split) blast

lemma running_add_listener:
  "running (case add_listener k s of Inl (e, s') \<Rightarrow> s' | Inr s' \<Rightarrow> s') = running s"
  by (simp add: add_listener_def record_effect_def Let_def split: registration.split)

lemma running_attach_client_listeners:
  "running (case attach_client_listeners s of Inl (e, s') \<Rightarrow> s' | Inr s' \<Rightarrow> s') =
   running s"
proof -
  have a: "running s' = running s" if "add_listener k s = Inl (e, s')" for k s e s'
    using running_add_listener [of k s] that by simp
  have b: "running s' = running s" if "add_listener k s = Inr s'" for k s s'
    using running_add_listener [of k s] that by simp
  show ?thesis
    by (auto simp: attach_client_listeners_def log_def record_effect_def a b
          split: sum.split prod.split)
qed

lemma start_leaves:
  "(case start env s of Inl (e, s') \<Rightarrow> s' | Inr s' \<Rightarrow> s') = step (Start env) s"
  by (simp split: sum.split prod.split)

lemma settled_start: "settled s \<Longrightarrow> settled (step (Start env) s)"
proof -
  assume s: "settled s"
  have r: "settled (case attach_client_listeners u of Inl (e, s') \<Rightarrow> s' | Inr s' \<Rightarrow> s')"
    if "running u" for u :: "'a SendspinMpris"
    using running_attach_client_listeners [of u] that by (simp add: settled_def)
  have r1: "settled s'" if "attach_client_listeners u = Inl (e, s')" "running u"
    for u :: "'a SendspinMpris" and e s'
    using r [OF that(2)] that(1) by simp
  have r2: "settled s'" if "attach_client_listeners u = Inr s'" "running u"
    for u :: "'a SendspinMpris" and s'
    using r [OF that(2)] that(1) by simp
  have l: "settled (log lv msg u)" if "settled u" for lv msg and u :: "'a SendspinMpris"
    using that by (simp add: settled_def log_def record_effect_def)
  show ?thesis
  proof (cases "MPRIS_AVAILABLE env \<and> \<not> running s")
    case False
    then show ?thesis
      using s by (auto simp: start_def settled_def log_def record_effect_def)
  next
    case True
    then have e: "listener_removers s = []"
      using s by (simp add: settled_def)
    show ?thesis
      using True e
      by (auto simp: start_def Let_def record_effect_def l
            split: option.split outcome.split sum.split prod.split
            intro!: l dest: r1 r2)
         (simp_all add: settled_def)
  qed
qed

lemma settled_stop: "settled s \<Longrightarrow> settled (stop s)"
  by (cases "running s") (simp_all add: stop_running settled_def stop_idle)

lemma removers_after_stop:
  "settled s \<Longrightarrow> listener_removers (stop s) = [] \<and> \<not> running (stop s)"
  by (cases "running s") (simp_all add: stop_running settled_def stop_idle)

lemma settled_step: "settled s \<Longrightarrow> settled (step x s)"
proof (cases x)
  case (Start env)
  assume "settled s"
  then show ?thesis unfolding Start by (rule settled_start)
next
  case Stop
  assume "settled s"
  then show ?thesis unfolding Stop by (simp add: settled_stop)
next
  case (Setter c)
  assume "settled s"
  then show ?thesis unfolding Setter step.simps by (rule settled_call)
next
  case (Metadata_event p)
  assume "settled s"
  then show ?thesis
    using on_metadata_update_calls [of p s] unfolding Metadata_event step.simps
    by (auto simp: settled_setters)
next
  case (Group_event p)
  assume "settled s"
  then show ?thesis
    using on_group_update_calls [of p s] unfolding Group_event step.simps
    by (auto simp: settled_setters)
next
  case (Controller_event p)
  assume "settled s"
  then show ?thesis
    using on_controller_state_calls [of p s] unfolding Controller_event step.simps
    by (auto simp: settled_setters)
qed

lemma settled_run: "settled s \<Longrightarrow> settled (run xs s)"
  by (induction xs arbitrary: s) (simp_all add: settled_step)

lemma settled_init: "settled (init st0 cl nm de)"
  by (simp add: settled_def init_def)

lemma untouched_init: "untouched (init st0 cl nm de)"
  by (simp add: untouched_def at_rest_def init_def)

lemma untouched_step: "untouched s \<Longrightarrow> \<not> finds_library x \<Longrightarrow> untouched (step x s)"
proof (cases x)
  case (Start env)
  assume "untouched s" "\<not> finds_library x"
  then show ?thesis unfolding Start
    by (simp add: start_def untouched_def at_rest_def log_def record_effect_def)
next
  case Stop
  assume "untouched s"
  then show ?thesis unfolding Stop by (simp add: untouched_def stop_idle)
next
  case (Setter c)
  assume "untouched s"
  then show ?thesis unfolding Setter step.simps by (rule untouched_call)
next
  case (Metadata_event p)
  assume "untouched s"
  then show ?thesis
    using on_metadata_update_calls [of p s] unfolding Metadata_event step.simps
    by (auto simp: untouched_setters)
next
  case (Group_event p)
  assume "untouched s"
  then show ?thesis
    using on_group_update_calls [of p s] unfolding Group_event step.simps
    by (auto simp: untouched_setters)
next
  case (Controller_event p)
  assume "untouched s"
  then show ?thesis
    using on_controller_state_calls [of p s] unfolding Controller_event step.simps
    by (auto simp: untouched_setters)
qed

lemma untouched_run:
  "untouched s \<Longrightarrow> list_all (\<lambda>x. \<not> finds_library x) xs \<Longrightarrow> untouched (run xs s)"
  by (induction xs arbitrary: s) (simp_all add: untouched_step)

section \<open>Default arguments of the metadata setter\<close>

text \<open>
  C10. The four parameters of \<open>set_metadata\<close> default to \<open>None\<close>, so an argument left out
  of a direct call writes \<open>None\<close> into its field of the state, whatever the field held:
  \<open>set_metadata(title="A")\<close> leaves the title \<open>"A"\<close> and artist, album and length
  \<open>None\<close>, and the same holds argument by argument.
\<close>

theorem set_metadata_omitted_arguments_clear:
  "state (set_metadata_kw (Given (Some ''A'')) Omitted Omitted Omitted s) =
     (state s)\<lparr>title := Some ''A'', artist := None, album := None, duration_ms := None\<rparr>
   \<and> title (state (set_metadata_kw Omitted ar al d s)) = None
   \<and> artist (state (set_metadata_kw t Omitted al d s)) = None
   \<and> album (state (set_metadata_kw t ar Omitted d s)) = None
   \<and> duration_ms (state (set_metadata_kw t ar al Omitted s)) = None"
  by (simp add: set_metadata_kw_def set_metadata_eq)

section \<open>Metadata events\<close>

text \<open>
  C1. For a metadata event whose metadata is present, each of title, artist and album
  of the state ends as the value the state held when the incoming field is the
  \<open>UndefinedField\<close> sentinel, and as the incoming value otherwise, an explicit \<open>None\<close>
  included. In particular, after \<open>set_metadata(title="A")\<close> and then an event with the
  title undefined and the artist \<open>"B"\<close>, the state has title \<open>"A"\<close> and artist \<open>"B"\<close>.
\<close>

theorem metadata_update_keeps_undefined_fields:
  assumes "metadata p = Some m"
  shows "title (state (on_metadata_update p s)) =
           (case metadata_title m of UndefinedField \<Rightarrow> title (state s) | Defined v \<Rightarrow> v)
    \<and> artist (state (on_metadata_update p s)) =
           (case metadata_artist m of UndefinedField \<Rightarrow> artist (state s) | Defined v \<Rightarrow> v)
    \<and> album (state (on_metadata_update p s)) =
           (case metadata_album m of UndefinedField \<Rightarrow> album (state s) | Defined v \<Rightarrow> v)
    \<and> (metadata_title m = UndefinedField \<and> metadata_artist m = Defined (Some ''B'') \<longrightarrow>
          title (state (on_metadata_update p
            (set_metadata_kw (Given (Some ''A'')) Omitted Omitted Omitted s))) = Some ''A'' \<and>
          artist (state (on_metadata_update p
            (set_metadata_kw (Given (Some ''A'')) Omitted Omitted Omitted s))) = Some ''B'')"
  by (simp add: state_on_metadata_update [OF assms] set_metadata_kw_def set_metadata_eq)

text \<open>
  The theorem at the sample object that holds a title, and an event that gives the
  artist only.
\<close>

theorem metadata_update_keeps_undefined_fields_witness:
  "metadata (with_metadata artist_only) = Some artist_only
   \<and> title (state (on_metadata_update (with_metadata artist_only) playing)) = Some ''Old title''
   \<and> artist (state (on_metadata_update (with_metadata artist_only) playing)) = Some ''B''
   \<and> album (state (on_metadata_update (with_metadata artist_only) playing)) = Some ''Old album''
   \<and> title (state (on_metadata_update (with_metadata artist_only)
        (set_metadata_kw (Given (Some ''A'')) Omitted Omitted Omitted playing))) = Some ''A''
   \<and> artist (state (on_metadata_update (with_metadata artist_only)
        (set_metadata_kw (Given (Some ''A'')) Omitted Omitted Omitted playing))) = Some ''B''"
proof -
  have m: "metadata (with_metadata artist_only) = Some artist_only"
    by (simp add: with_metadata_def)
  show ?thesis
    using m metadata_update_keeps_undefined_fields [OF m, of playing]
    by (simp add: artist_only_def state_playing sample_state_def)
qed

section \<open>Setters and the event adapter\<close>

text \<open>
  C3. With an event adapter present, \<open>set_progress\<close> makes no call on it, and each of
  \<open>set_metadata\<close>, \<open>set_playback_state\<close>, \<open>set_volume\<close> and \<open>set_supported_commands\<close>
  makes exactly one, of its own kind, at a moment when the state already holds the
  values just written.
\<close>

theorem setters_emit_once_after_write:
  assumes "event_adapter s = Some ea"
  shows "emitted s (set_progress p s) = []
    \<and> emitted s (set_metadata t ar al d s) =
        [Emit on_title ((state s)\<lparr>title := t, artist := ar, album := al, duration_ms := d\<rparr>)]
    \<and> emitted s (set_playback_state ps s) =
        [Emit on_playpause ((state s)\<lparr>playback_state := Some ps\<rparr>)]
    \<and> emitted s (set_volume v m s) = [Emit on_volume ((state s)\<lparr>volume := v, muted := m\<rparr>)]
    \<and> emitted s (set_supported_commands cs s) =
        [Emit on_options ((state s)\<lparr>supported_commands := cs\<rparr>)]"
  using assms
  by (simp add: emitted_def added_def set_progress_eq set_metadata_eq set_playback_state_eq
        set_volume_eq set_supported_commands_eq split: outcome.split)

text \<open>The theorem at the started sample object, one call of each setter.\<close>

theorem setters_emit_once_after_write_witness:
  "event_adapter started = Some (\<lambda>n. Raises)
   \<and> emitted started (set_progress (Some 7) started) = []
   \<and> emitted started (set_metadata (Some ''T'') None None (Some 9) started) =
       [Emit on_title
          (sample_state\<lparr>title := Some ''T'', artist := None, album := None,
             duration_ms := Some 9\<rparr>)]
   \<and> emitted started (set_playback_state PLAYING started) =
       [Emit on_playpause (sample_state\<lparr>playback_state := Some PLAYING\<rparr>)]
   \<and> emitted started (set_volume 55 True started) =
       [Emit on_volume (sample_state\<lparr>volume := 55, muted := True\<rparr>)]
   \<and> emitted started (set_supported_commands {3} started) =
       [Emit on_options (sample_state\<lparr>supported_commands := {3}\<rparr>)]"
proof -
  have ea: "event_adapter started = Some (\<lambda>n. Raises)"
    by (simp add: started_eq)
  have st: "state started = sample_state"
    by (simp add: started_eq)
  show ?thesis
    using ea setters_emit_once_after_write [OF ea, of "Some 7" "Some ''T''" None None "Some 9"
        PLAYING 55 True "{3}"]
    by (simp add: st)
qed

text \<open>
  C4. When the call on the event adapter raises, the setter still ends normally: the
  object it leaves is the one it was given with the new values in the state and three
  entries more in the trace, the entry into the setter, the call that raised, and the
  debug line of the handler. Nothing is written back.
\<close>

theorem setters_swallow_emit_failure:
  assumes "event_adapter s = Some ea"
  shows "(ea on_title = Raises \<longrightarrow>
           set_metadata t ar al d s =
             s\<lparr>state := (state s)\<lparr>title := t, artist := ar, album := al, duration_ms := d\<rparr>,
               trace := trace s @
                 [Enter (Set_metadata t ar al d),
                  Emit on_title
                    ((state s)\<lparr>title := t, artist := ar, album := al, duration_ms := d\<rparr>),
                  Log DEBUG ''Failed to emit MPRIS metadata change'']\<rparr>)
    \<and> (ea on_playpause = Raises \<longrightarrow>
           set_playback_state ps s =
             s\<lparr>state := (state s)\<lparr>playback_state := Some ps\<rparr>,
               trace := trace s @
                 [Enter (Set_playback_state ps),
                  Emit on_playpause ((state s)\<lparr>playback_state := Some ps\<rparr>),
                  Log DEBUG ''Failed to emit MPRIS playback state change'']\<rparr>)
    \<and> (ea on_volume = Raises \<longrightarrow>
           set_volume v m s =
             s\<lparr>state := (state s)\<lparr>volume := v, muted := m\<rparr>,
               trace := trace s @
                 [Enter (Set_volume v m),
                  Emit on_volume ((state s)\<lparr>volume := v, muted := m\<rparr>),
                  Log DEBUG ''Failed to emit MPRIS volume change'']\<rparr>)
    \<and> (ea on_options = Raises \<longrightarrow>
           set_supported_commands cs s =
             s\<lparr>state := (state s)\<lparr>supported_commands := cs\<rparr>,
               trace := trace s @
                 [Enter (Set_supported_commands cs),
                  Emit on_options ((state s)\<lparr>supported_commands := cs\<rparr>),
                  Log DEBUG ''Failed to emit MPRIS options change'']\<rparr>)"
  using assms
  by (simp add: set_metadata_eq set_playback_state_eq set_volume_eq set_supported_commands_eq)

text \<open>The theorem at the started sample object, whose event adapter always raises.\<close>

theorem setters_swallow_emit_failure_witness:
  "event_adapter started = Some (\<lambda>n. Raises)
   \<and> state (set_metadata (Some ''T'') None None (Some 9) started) =
       sample_state\<lparr>title := Some ''T'', artist := None, album := None, duration_ms := Some 9\<rparr>
   \<and> state (set_playback_state PLAYING started) = sample_state\<lparr>playback_state := Some PLAYING\<rparr>
   \<and> state (set_volume 55 True started) = sample_state\<lparr>volume := 55, muted := True\<rparr>
   \<and> added started (set_volume 55 True started) =
       [Enter (Set_volume 55 True),
        Emit on_volume (sample_state\<lparr>volume := 55, muted := True\<rparr>),
        Log DEBUG ''Failed to emit MPRIS volume change'']
   \<and> state (set_supported_commands {3} started) = sample_state\<lparr>supported_commands := {3}\<rparr>"
proof -
  have ea: "event_adapter started = Some (\<lambda>n. Raises)"
    by (simp add: started_eq)
  have st: "state started = sample_state"
    by (simp add: started_eq)
  show ?thesis
    using ea setters_swallow_emit_failure [OF ea, of "Some ''T''" None None "Some 9"
        PLAYING 55 True "{3}"]
    by (simp add: st added_def)
qed

section \<open>Stopping\<close>

text \<open>
  C5. A \<open>stop\<close> on a running object calls every remover of the list, each once and in
  the order of the list, whatever the removers before it did: a remover that raises
  leaves one debug line and the loop goes on. When \<open>stop\<close> returns the list is empty
  and the object is not running. On an object that is not running \<open>stop\<close> changes
  nothing; and after any history from a new object, the list is empty once \<open>stop\<close> has
  returned.
\<close>

theorem stop_calls_every_remover:
  "(running s \<longrightarrow>
      removed s (stop s) = map Call_remover (listener_removers s) \<and>
      length (filter (\<lambda>e. e = Log DEBUG ''Error removing listener'') (added s (stop s))) =
        length (filter (\<lambda>r. remover_outcome r = Raises) (listener_removers s)) \<and>
      listener_removers (stop s) = [] \<and> \<not> running (stop s))
   \<and> (\<not> running s \<longrightarrow> stop s = s)
   \<and> listener_removers (stop (run xs (init st0 cl nm de))) = []"
proof -
  have reach: "listener_removers (stop (run xs (init st0 cl nm de))) = []"
    using removers_after_stop [OF settled_run [OF settled_init]] by blast
  show ?thesis
  proof (cases "running s")
    case True
    then show ?thesis
      using reach
      by (simp add: stop_running removed_def added_def filter_removals filter_removal_errors
            split: option.split outcome.split)
  next
    case False
    then show ?thesis using reach by (simp add: stop_idle)
  qed
qed

text \<open>
  The theorem at the started sample object, whose second remover raises, and at the new
  sample object, which is not running.
\<close>

theorem stop_calls_every_remover_witness:
  "running started
   \<and> removed started (stop started) =
       [Call_remover \<lparr>removes = metadata_listener, remover_outcome = Returns\<rparr>,
        Call_remover \<lparr>removes = group_update_listener, remover_outcome = Raises\<rparr>,
        Call_remover \<lparr>removes = controller_state_listener, remover_outcome = Returns\<rparr>]
   \<and> length (filter (\<lambda>e. e = Log DEBUG ''Error removing listener'')
         (added started (stop started))) = 1
   \<and> listener_removers (stop started) = []
   \<and> \<not> running (stop started)
   \<and> \<not> running fresh
   \<and> stop fresh = fresh"
proof -
  have r: "running started"
    by (simp add: started_eq)
  have l: "listener_removers started =
       [\<lparr>removes = metadata_listener, remover_outcome = Returns\<rparr>,
        \<lparr>removes = group_update_listener, remover_outcome = Raises\<rparr>,
        \<lparr>removes = controller_state_listener, remover_outcome = Returns\<rparr>]"
    by (simp add: started_eq sample_client_def)
  have f: "\<not> running fresh"
    by (simp add: fresh_def init_def)
  show ?thesis
    using r f
      stop_calls_every_remover [of started "[]" sample_state sample_client "''Sendspin''" None]
      stop_calls_every_remover [of fresh "[]" sample_state sample_client "''Sendspin''" None]
    by (simp add: l)
qed

section \<open>Starting\<close>

lemma start_unavailable:
  "\<not> MPRIS_AVAILABLE env \<Longrightarrow>
   start env s =
     Inr (s\<lparr>trace := trace s @
       [Log DEBUG
          ''MPRIS not available: mpris_server package not installed or not on Linux'']\<rparr>)"
  by (simp add: start_def log_def record_effect_def)

text \<open>
  C6. With the library unavailable \<open>start\<close> returns normally and leaves the object as
  it was but for one debug line. On an object whose history never found the library,
  that is an object that is not running, with no remover registered and no adapter,
  server, event adapter or thread, and whose trace holds no registration and no thread
  start.
\<close>

theorem start_without_library:
  assumes "\<not> MPRIS_AVAILABLE env" and "list_all (\<lambda>x. \<not> finds_library x) xs"
  shows "start env s =
           Inr (s\<lparr>trace := trace s @
             [Log DEBUG
                ''MPRIS not available: mpris_server package not installed or not on Linux'']\<rparr>)
    \<and> (\<exists>s'. start env (run xs (init st0 cl nm de)) = Inr s' \<and>
          \<not> running s' \<and> listener_removers s' = [] \<and> adapter s' = None \<and>
          server s' = None \<and> event_adapter s' = None \<and> thread s' = None \<and>
          filter is_Add_listener (trace s') = [] \<and> Thread_start \<notin> set (trace s'))"
proof -
  have "untouched (run xs (init st0 cl nm de))"
    using untouched_init assms(2) by (rule untouched_run)
  then show ?thesis
    by (simp add: start_unavailable [OF assms(1)] untouched_def at_rest_def)
qed

text \<open>The theorem at the sample platform without the library, after a short history.\<close>

theorem start_without_library_witness:
  "\<not> MPRIS_AVAILABLE (sample_environment\<lparr>MPRIS_AVAILABLE := False\<rparr>)
   \<and> list_all (\<lambda>x. \<not> finds_library x)
        [Setter (Set_volume 10 False), Stop,
         Start (sample_environment\<lparr>MPRIS_AVAILABLE := False\<rparr>)]
   \<and> start (sample_environment\<lparr>MPRIS_AVAILABLE := False\<rparr>) fresh =
        Inr (fresh\<lparr>trace :=
          [Log DEBUG
             ''MPRIS not available: mpris_server package not installed or not on Linux'']\<rparr>)
   \<and> (\<exists>s'. start (sample_environment\<lparr>MPRIS_AVAILABLE := False\<rparr>)
          (run [Setter (Set_volume 10 False), Stop,
                Start (sample_environment\<lparr>MPRIS_AVAILABLE := False\<rparr>)]
             (init sample_state sample_client ''Sendspin'' None)) = Inr s' \<and>
          \<not> running s' \<and> listener_removers s' = [] \<and> adapter s' = None \<and>
          server s' = None \<and> event_adapter s' = None \<and> thread s' = None \<and>
          filter is_Add_listener (trace s') = [] \<and> Thread_start \<notin> set (trace s'))"
proof -
  have a: "\<not> MPRIS_AVAILABLE (sample_environment\<lparr>MPRIS_AVAILABLE := False\<rparr>)"
    by simp
  have b: "list_all (\<lambda>x. \<not> finds_library x)
        [Setter (Set_volume 10 False), Stop,
         Start (sample_environment\<lparr>MPRIS_AVAILABLE := False\<rparr>)]"
    by simp
  have t: "trace fresh = []"
    by (simp add: fresh_def init_def)
  show ?thesis
    using a b start_without_library [OF a b, of fresh sample_state sample_client "''Sendspin''" None]
    by (simp add: t)
qed

text \<open>
  C8, as amended. With the library available and the object not running, \<open>start\<close>
  without a running event loop raises \<open>RuntimeError\<close> to the caller and leaves the
  object as it was. It is the only error that \<open>start\<close> raises itself. Any other error
  that reaches the caller of \<open>start\<close> is the exception of a call that \<open>start\<close> makes on
  a collaborator outside every \<open>try\<close>, with a loop running: the construction of the
  adapter, of the server or of the event adapter, the start of the thread, or one of
  the three registrations.
\<close>

theorem start_without_loop_raises:
  "(MPRIS_AVAILABLE env \<and> \<not> running s \<and> get_running_loop env = None \<longrightarrow>
      start env s =
        Inl (RuntimeError ''MPRIS must be started from within a running event loop'', s))
   \<and> (start env s = Inl (e, s') \<longrightarrow>
        MPRIS_AVAILABLE env \<and> \<not> running s \<and>
        (e = RuntimeError ''MPRIS must be started from within a running event loop'' \<and>
         get_running_loop env = None \<and> s' = s
         \<or> (\<exists>c. e = Propagated c \<and> get_running_loop env \<noteq> None \<and>
                call_outcome env (client s) c = Raises)))"
proof -
  have add: "\<exists>c. e = Propagated c \<and> call_outcome env (client u) c = Raises"
    if "add_listener k u = Inl (e, u')" for k e u' and u :: "'a SendspinMpris"
    using that
    by (auto simp: add_listener_def record_effect_def Let_def split: registration.splits)
  have cl: "client u' = client u" if "add_listener k u = Inr u'"
    for k u' and u :: "'a SendspinMpris"
    using that
    by (auto simp: add_listener_def record_effect_def Let_def split: registration.splits)
  have att: "\<exists>c. e = Propagated c \<and> call_outcome env (client u) c = Raises"
    if "attach_client_listeners u = Inl (e, u')" for e u' and u :: "'a SendspinMpris"
    using that
    by (auto simp: attach_client_listeners_def split: sum.splits dest: add cl)
       (metis add cl)+
  show ?thesis
    by (auto simp: start_def Let_def record_effect_def
          split: if_splits option.splits outcome.splits sum.splits dest!: att)
qed

text \<open>The theorem at the sample platform without a running loop, on a new object.\<close>

theorem start_without_loop_raises_witness:
  "MPRIS_AVAILABLE (sample_environment\<lparr>get_running_loop := None\<rparr>)
   \<and> \<not> running fresh
   \<and> get_running_loop (sample_environment\<lparr>get_running_loop := None\<rparr>) = None
   \<and> start (sample_environment\<lparr>get_running_loop := None\<rparr>) fresh =
       Inl (RuntimeError ''MPRIS must be started from within a running event loop'', fresh)"
proof -
  have a: "MPRIS_AVAILABLE (sample_environment\<lparr>get_running_loop := None\<rparr>)"
    by (simp add: sample_environment_def)
  have f: "\<not> running fresh"
    by (simp add: fresh_def init_def)
  have l: "get_running_loop (sample_environment\<lparr>get_running_loop := None\<rparr>) = None"
    by simp
  show ?thesis
    using a f l
      start_without_loop_raises
        [of "sample_environment\<lparr>get_running_loop := None\<rparr>" fresh
            "RuntimeError ''MPRIS must be started from within a running event loop''" fresh]
    by blast
qed

text \<open>
  C8 as it is stated fails: it has the missing loop as the only error that reaches the
  caller. On the sample platform, with its loop running, a \<open>Server(...)\<close> that raises
  reaches the caller of \<open>start\<close> on a new object, which is left with its loop and its
  adapter assigned.
\<close>

theorem start_raises_with_running_loop:
  "get_running_loop (sample_environment\<lparr>server_constructor := Raises\<rparr>) = Some 1
   \<and> start (sample_environment\<lparr>server_constructor := Raises\<rparr>) fresh =
       Inl (Propagated Server_call,
            fresh\<lparr>loop := Some 1,
              adapter := Some \<lparr>adapter_loop = 1, adapter_desktop_entry = None\<rparr>\<rparr>)"
  by (simp add: start_def sample_environment_def fresh_def init_def Let_def)

section \<open>Group events\<close>

text \<open>
  C7. A group update whose playback state is \<open>None\<close> leaves the object exactly as it
  was: no setter is entered and the state is unchanged. With a playback state, the
  handler is one call of \<open>set_playback_state\<close> with that value.
\<close>

theorem group_update_playback_state:
  "(group_playback_state p = None \<longrightarrow>
      on_group_update p s = s \<and> entered s (on_group_update p s) = [])
   \<and> (group_playback_state p = Some ps \<longrightarrow>
        on_group_update p s = set_playback_state ps s \<and>
        entered s (on_group_update p s) = [Enter (Set_playback_state ps)] \<and>
        playback_state (state (on_group_update p s)) = Some ps)"
  by (simp add: on_group_update_def entered_def added_def set_playback_state_eq
        split: option.split outcome.split)

text \<open>The theorem at the started sample object, for both kinds of update.\<close>

theorem group_update_playback_state_witness:
  "group_playback_state \<lparr>group_playback_state = None\<rparr> = None
   \<and> on_group_update \<lparr>group_playback_state = None\<rparr> started = started
   \<and> entered started (on_group_update \<lparr>group_playback_state = None\<rparr> started) = []
   \<and> group_playback_state \<lparr>group_playback_state = Some PLAYING\<rparr> = Some PLAYING
   \<and> entered started (on_group_update \<lparr>group_playback_state = Some PLAYING\<rparr> started) =
       [Enter (Set_playback_state PLAYING)]
   \<and> playback_state (state (on_group_update \<lparr>group_playback_state = Some PLAYING\<rparr> started)) =
       Some PLAYING"
proof -
  have a: "group_playback_state \<lparr>group_playback_state = None\<rparr> = None"
    by simp
  have b: "group_playback_state \<lparr>group_playback_state = Some PLAYING\<rparr> = Some PLAYING"
    by simp
  show ?thesis
    using a b group_update_playback_state [of "\<lparr>group_playback_state = None\<rparr>" started]
      group_update_playback_state
        [of "\<lparr>group_playback_state = Some PLAYING\<rparr>" started PLAYING]
    by blast
qed

section \<open>Position and length in a metadata event\<close>

text \<open>What the metadata handler appends to the trace, and the setters it enters.\<close>

lemma added_set_metadata:
  "added s (set_metadata t ar al d s) =
     Enter (Set_metadata t ar al d) #
       (case event_adapter s of
          None \<Rightarrow>
            [Log WARNING ''MPRIS event adapter not initialized; cannot emit metadata change'']
        | Some ea \<Rightarrow>
            Emit on_title
              ((state s)\<lparr>title := t, artist := ar, album := al, duration_ms := d\<rparr>) #
            (case ea on_title of
               Returns \<Rightarrow> []
             | Raises \<Rightarrow> [Log DEBUG ''Failed to emit MPRIS metadata change'']))"
  by (simp add: added_def set_metadata_eq)

lemma added_set_progress_after:
  "added s (set_progress g (set_metadata t ar al d s)) =
     added s (set_metadata t ar al d s) @ [Enter (Set_progress g)]"
  by (simp add: added_def set_metadata_eq set_progress_eq)

lemma added_on_metadata_update:
  assumes "metadata p = Some m"
  shows "\<exists>rest. (\<forall>e \<in> set rest. \<not> is_Enter e) \<and>
     added s (on_metadata_update p s) =
       Enter (Set_metadata
         (case metadata_title m of UndefinedField \<Rightarrow> title (state s) | Defined v \<Rightarrow> v)
         (case metadata_artist m of UndefinedField \<Rightarrow> artist (state s) | Defined v \<Rightarrow> v)
         (case metadata_album m of UndefinedField \<Rightarrow> album (state s) | Defined v \<Rightarrow> v)
         (case metadata_progress m of
            Defined (Some pr) \<Rightarrow> Some (track_duration pr)
          | Defined None \<Rightarrow> duration_ms (state s)
          | UndefinedField \<Rightarrow> duration_ms (state s))) # rest @
       (case (case metadata_progress m of
                Defined (Some pr) \<Rightarrow> Some (track_progress pr)
              | Defined None \<Rightarrow> progress_ms (state s)
              | UndefinedField \<Rightarrow> progress_ms (state s)) of
          None \<Rightarrow> []
        | Some x \<Rightarrow> [Enter (Set_progress (Some x))])"
  unfolding on_metadata_update_Some [OF assms] Let_def
  by (simp add: added_set_progress_after added_set_metadata
        split: option.split outcome.split)

lemma entered_on_metadata_update:
  assumes "metadata p = Some m"
  shows "entered s (on_metadata_update p s) =
       Enter (Set_metadata
         (case metadata_title m of UndefinedField \<Rightarrow> title (state s) | Defined v \<Rightarrow> v)
         (case metadata_artist m of UndefinedField \<Rightarrow> artist (state s) | Defined v \<Rightarrow> v)
         (case metadata_album m of UndefinedField \<Rightarrow> album (state s) | Defined v \<Rightarrow> v)
         (case metadata_progress m of
            Defined (Some pr) \<Rightarrow> Some (track_duration pr)
          | Defined None \<Rightarrow> duration_ms (state s)
          | UndefinedField \<Rightarrow> duration_ms (state s))) #
       (case (case metadata_progress m of
                Defined (Some pr) \<Rightarrow> Some (track_progress pr)
              | Defined None \<Rightarrow> progress_ms (state s)
              | UndefinedField \<Rightarrow> progress_ms (state s)) of
          None \<Rightarrow> []
        | Some x \<Rightarrow> [Enter (Set_progress (Some x))])"
proof -
  from added_on_metadata_update [OF assms, of s] obtain rest where
    r: "\<forall>e \<in> set rest. \<not> is_Enter e" and
    a: "added s (on_metadata_update p s) =
       Enter (Set_metadata
         (case metadata_title m of UndefinedField \<Rightarrow> title (state s) | Defined v \<Rightarrow> v)
         (case metadata_artist m of UndefinedField \<Rightarrow> artist (state s) | Defined v \<Rightarrow> v)
         (case metadata_album m of UndefinedField \<Rightarrow> album (state s) | Defined v \<Rightarrow> v)
         (case metadata_progress m of
            Defined (Some pr) \<Rightarrow> Some (track_duration pr)
          | Defined None \<Rightarrow> duration_ms (state s)
          | UndefinedField \<Rightarrow> duration_ms (state s))) # rest @
       (case (case metadata_progress m of
                Defined (Some pr) \<Rightarrow> Some (track_progress pr)
              | Defined None \<Rightarrow> progress_ms (state s)
              | UndefinedField \<Rightarrow> progress_ms (state s)) of
          None \<Rightarrow> []
        | Some x \<Rightarrow> [Enter (Set_progress (Some x))])"
    by blast
  from r have "filter is_Enter rest = []"
    by (simp add: filter_empty_conv)
  then show ?thesis
    unfolding entered_def a by (simp split: option.split)
qed

lemma list_ex_Set_progress_filter:
  "list_ex is_Set_progress (filter is_Enter xs) = list_ex is_Set_progress xs"
  by (induction xs) (auto elim: is_Set_progress.elims)

lemma calls_set_progress_entered:
  "calls_set_progress s s' = list_ex is_Set_progress (entered s s')"
  by (simp add: calls_set_progress_def entered_def list_ex_Set_progress_filter)



text \<open>
  C2, as amended. For every metadata event: when the event has no metadata, no setter
  is entered and the object stays as it was, length and position included. When it has,
  the length and the position of the state end as the \<open>track_duration\<close> and
  \<open>track_progress\<close> of the progress object if the event has one (neither the sentinel
  nor \<open>None\<close>), and as they were otherwise; \<open>set_metadata\<close> is entered first, with that
  length; and \<open>set_progress\<close> is entered after it exactly when the resulting position is
  not \<open>None\<close>, that is, when the event has a progress object or the state already held
  a position.
\<close>

theorem metadata_update_progress_calls:
  "(metadata p = None \<longrightarrow>
      on_metadata_update p s = s \<and>
      entered s (on_metadata_update p s) = [] \<and>
      \<not> calls_set_progress s (on_metadata_update p s))
   \<and> (metadata p = Some m \<longrightarrow>
        duration_ms (state (on_metadata_update p s)) =
          (case metadata_progress m of
             Defined (Some pr) \<Rightarrow> Some (track_duration pr)
           | Defined None \<Rightarrow> duration_ms (state s)
           | UndefinedField \<Rightarrow> duration_ms (state s)) \<and>
        progress_ms (state (on_metadata_update p s)) =
          (case metadata_progress m of
             Defined (Some pr) \<Rightarrow> Some (track_progress pr)
           | Defined None \<Rightarrow> progress_ms (state s)
           | UndefinedField \<Rightarrow> progress_ms (state s)) \<and>
        entered s (on_metadata_update p s) =
          Enter (Set_metadata
            (title (state (on_metadata_update p s))) (artist (state (on_metadata_update p s)))
            (album (state (on_metadata_update p s)))
            (duration_ms (state (on_metadata_update p s)))) #
          (case progress_ms (state (on_metadata_update p s)) of
             None \<Rightarrow> []
           | Some x \<Rightarrow> [Enter (Set_progress (Some x))]) \<and>
        calls_set_progress s (on_metadata_update p s) =
          (carries_progress m \<or> progress_ms (state s) \<noteq> None))"
proof (cases "metadata p")
  case None
  then show ?thesis
    by (simp add: on_metadata_update_None [OF None] calls_set_progress_def entered_def
          added_def)
next
  case (Some m')
  show ?thesis
    unfolding calls_set_progress_entered
    by (auto simp: Some state_on_metadata_update [OF Some] entered_on_metadata_update [OF Some]
          carries_progress_def split: field.split option.split)
qed

text \<open>
  The theorem at three events: one with no metadata and one that gives the artist only,
  on the sample object that holds a position, and one that gives a progress object, on
  the started sample object, which holds none.
\<close>

theorem metadata_update_progress_calls_witness:
  "metadata without_metadata = None
   \<and> on_metadata_update without_metadata playing = playing
   \<and> entered playing (on_metadata_update without_metadata playing) = []
   \<and> metadata (with_metadata artist_only) = Some artist_only
   \<and> duration_ms (state (on_metadata_update (with_metadata artist_only) playing)) = Some 180000
   \<and> progress_ms (state (on_metadata_update (with_metadata artist_only) playing)) = Some 5000
   \<and> entered playing (on_metadata_update (with_metadata artist_only) playing) =
       [Enter (Set_metadata (Some ''Old title'') (Some ''B'') (Some ''Old album'') (Some 180000)),
        Enter (Set_progress (Some 5000))]
   \<and> calls_set_progress playing (on_metadata_update (with_metadata artist_only) playing)
   \<and> metadata (with_metadata progress_only) = Some progress_only
   \<and> duration_ms (state (on_metadata_update (with_metadata progress_only) started)) =
       Some 200000
   \<and> progress_ms (state (on_metadata_update (with_metadata progress_only) started)) = Some 7000
   \<and> entered started (on_metadata_update (with_metadata progress_only) started) =
       [Enter (Set_metadata None None None (Some 200000)), Enter (Set_progress (Some 7000))]
   \<and> calls_set_progress started (on_metadata_update (with_metadata progress_only) started)"
proof -
  have n: "metadata without_metadata = None"
    by (simp add: without_metadata_def)
  have m: "metadata (with_metadata artist_only) = Some artist_only"
    by (simp add: with_metadata_def)
  have g: "metadata (with_metadata progress_only) = Some progress_only"
    by (simp add: with_metadata_def)
  have st: "state playing =
     sample_state\<lparr>title := Some ''Old title'', album := Some ''Old album'',
       duration_ms := Some 180000, progress_ms := Some 5000\<rparr>"
    by (rule state_playing)
  have st0: "state started = sample_state"
    by (simp add: started_eq)
  have t: "title (state (on_metadata_update (with_metadata artist_only) playing)) =
             Some ''Old title''
           \<and> artist (state (on_metadata_update (with_metadata artist_only) playing)) = Some ''B''
           \<and> album (state (on_metadata_update (with_metadata artist_only) playing)) =
             Some ''Old album''"
    using state_on_metadata_update [OF m, of playing]
    by (simp add: st artist_only_def sample_state_def)
  have t0: "title (state (on_metadata_update (with_metadata progress_only) started)) = None
           \<and> artist (state (on_metadata_update (with_metadata progress_only) started)) = None
           \<and> album (state (on_metadata_update (with_metadata progress_only) started)) = None"
    using state_on_metadata_update [OF g, of started]
    by (simp add: st0 progress_only_def sample_state_def)
  have 1: "on_metadata_update without_metadata playing = playing
      \<and> entered playing (on_metadata_update without_metadata playing) = []"
    using n metadata_update_progress_calls [of without_metadata playing] by blast
  have 2: "duration_ms (state (on_metadata_update (with_metadata artist_only) playing)) =
             Some 180000
   \<and> progress_ms (state (on_metadata_update (with_metadata artist_only) playing)) = Some 5000
   \<and> entered playing (on_metadata_update (with_metadata artist_only) playing) =
       [Enter (Set_metadata (Some ''Old title'') (Some ''B'') (Some ''Old album'') (Some 180000)),
        Enter (Set_progress (Some 5000))]
   \<and> calls_set_progress playing (on_metadata_update (with_metadata artist_only) playing)"
    using m t metadata_update_progress_calls [of "with_metadata artist_only" playing artist_only]
    by (simp add: st artist_only_def sample_state_def carries_progress_def)
  have 3: "duration_ms (state (on_metadata_update (with_metadata progress_only) started)) =
       Some 200000
   \<and> progress_ms (state (on_metadata_update (with_metadata progress_only) started)) = Some 7000
   \<and> entered started (on_metadata_update (with_metadata progress_only) started) =
       [Enter (Set_metadata None None None (Some 200000)), Enter (Set_progress (Some 7000))]
   \<and> calls_set_progress started (on_metadata_update (with_metadata progress_only) started)"
    using g t0
      metadata_update_progress_calls [of "with_metadata progress_only" started progress_only]
    by (simp add: st0 progress_only_def sample_state_def carries_progress_def)
  show ?thesis
    using n m g 1 2 3 by blast
qed

text \<open>
  C2 as it is stated fails: it has \<open>set_progress\<close> called exactly when the event updated
  the progress. After \<open>set_progress(5000)\<close> on the started sample object, an event with
  no progress object still leads to a call of \<open>set_progress\<close>, with the position the
  state held.
\<close>

theorem progress_setter_called_without_update:
  "\<not> (calls_set_progress playing (on_metadata_update (with_metadata artist_only) playing) =
        carries_progress artist_only)"
proof -
  have m: "metadata (with_metadata artist_only) = Some artist_only"
    by (simp add: with_metadata_def)
  have st: "state playing =
     sample_state\<lparr>title := Some ''Old title'', album := Some ''Old album'',
       duration_ms := Some 180000, progress_ms := Some 5000\<rparr>"
    by (rule state_playing)
  have "calls_set_progress playing (on_metadata_update (with_metadata artist_only) playing)"
    using entered_on_metadata_update [OF m, of playing]
    by (simp add: calls_set_progress_entered st artist_only_def sample_state_def)
  moreover have "\<not> carries_progress artist_only"
    by (simp add: carries_progress_def artist_only_def)
  ultimately show ?thesis by simp
qed




end
